theory Spec2Isabelle
  imports Main "HOL-Library.Word"
begin

section \<open>The encrypted-integer primitive\<close>

text \<open>
  The contract \<open>EncryptedMapGame\<close> imports the types \<open>euint8\<close>, \<open>euint32\<close>, \<open>ebool\<close>,
  \<open>externalEuint8\<close> and the library \<open>FHE\<close> from \<open>@fhevm/solidity\<close>. A ciphertext handle
  is represented by the operation that produced it together with its operands, and
  decryption evaluates that expression; the contract itself never sees a plaintext.
\<close>

type_synonym address = "160 word"

text \<open>A client-side encrypted input: its handle and the 8-bit plaintext it encrypts.\<close>

datatype externalEuint8 = ExternalEuint8 (ext_handle: nat) (ext_value: "8 word")

text \<open>
  Modelled from the spec: the EncryptedInt8 primitive (library \<open>FHE\<close> of
  \<open>@fhevm/solidity\<close>), which the contract imports and which is not among the source files:
  "an opaque ciphertext type supporting addition, modulo, less-than/greater-than
  comparison, conditional select, random generation, and an access-grant operation".
  \<open>Uninit8\<close> is the zero handle of a storage slot that was never written; \<open>Rand8 n v\<close> is
  the \<open>n\<close>-th random ciphertext, whose draw is \<open>v\<close>.
\<close>

datatype euint8 =
    Uninit8
  | Rand8 nat "8 word"
  | Trivial8 "8 word"
  | Input8 externalEuint8
  | Cast8 euint32
  | Select8 ebool euint8 euint8
and euint32 =
    Trivial32 "32 word"
  | Cast32 euint8
  | Rem32 euint32 "32 word"
  | Add32 euint32 euint32
and ebool =
    Lt8 euint8 euint8
  | Gt8 euint8 euint8

primrec decrypt8 :: "euint8 \<Rightarrow> 8 word"
  and decrypt32 :: "euint32 \<Rightarrow> 32 word"
  and decryptBool :: "ebool \<Rightarrow> bool" where
  "decrypt8 Uninit8 = 0"
| "decrypt8 (Rand8 n v) = v"
| "decrypt8 (Trivial8 v) = v"
| "decrypt8 (Input8 e) = ext_value e"
| "decrypt8 (Cast8 a) = ucast (decrypt32 a)"
| "decrypt8 (Select8 c a b) = (if decryptBool c then decrypt8 a else decrypt8 b)"
| "decrypt32 (Trivial32 v) = v"
| "decrypt32 (Cast32 a) = ucast (decrypt8 a)"
| "decrypt32 (Rem32 a m) = decrypt32 a mod m"
| "decrypt32 (Add32 a b) = decrypt32 a + decrypt32 b"
| "decryptBool (Lt8 a b) = (decrypt8 a < decrypt8 b)"
| "decryptBool (Gt8 a b) = (decrypt8 a > decrypt8 b)"

text \<open>
  Modelled from the spec: the input proof of the Client Encryptor, which "binds the
  ciphertexts to (ledgerInstance, identity)".
\<close>

record inputProof =
  proof_contract :: address
  proof_user :: address
  proof_handles :: "externalEuint8 list"

datatype error = PlayerAlreadyJoined | PlayerNotRegistered | InvalidProof

section \<open>The contract state\<close>

record PlayerPosition =
  x :: euint8
  y :: euint8
  active :: bool

datatype event = PlayerJoined address | PlayerMoved address

text \<open>
  \<open>players\<close> is the mapping \<open>_players\<close>; \<open>acl\<close> is the access-control list of the
  primitive (which identity may ask for the decryption of which handle), \<open>rand_counter\<close>
  its count of random draws, and \<open>events\<close> the log of emitted events.
\<close>

record state =
  players :: "address \<Rightarrow> PlayerPosition"
  acl :: "(euint8 \<times> address) set"
  rand_counter :: nat
  events :: "event list"

definition init :: state where
  "init = \<lparr>players = (\<lambda>_. \<lparr>x = Uninit8, y = Uninit8, active = False\<rparr>),
           acl = {}, rand_counter = 0, events = []\<rparr>"

definition MIN_COORDINATE :: "8 word" where
  "MIN_COORDINATE = 1"

definition MAX_COORDINATE :: "8 word" where
  "MAX_COORDINATE = 10"

subsection \<open>The operations of the library that the contract calls\<close>

text \<open>\<open>FHE.randEuint8()\<close>; the value drawn is a parameter of the model.\<close>

definition FHE_randEuint8 :: "8 word \<Rightarrow> state \<Rightarrow> euint8 \<times> state" where
  "FHE_randEuint8 v s = (Rand8 (rand_counter s) v, s\<lparr>rand_counter := Suc (rand_counter s)\<rparr>)"

text \<open>\<open>FHE.asEuint32(euint8)\<close> and \<open>FHE.asEuint32(uint32)\<close>.\<close>

definition FHE_asEuint32 :: "euint8 \<Rightarrow> euint32" where
  "FHE_asEuint32 a = Cast32 a"

definition FHE_asEuint32_plain :: "32 word \<Rightarrow> euint32" where
  "FHE_asEuint32_plain v = Trivial32 v"

text \<open>\<open>FHE.asEuint8(euint32)\<close> and \<open>FHE.asEuint8(uint8)\<close>.\<close>

definition FHE_asEuint8 :: "euint32 \<Rightarrow> euint8" where
  "FHE_asEuint8 a = Cast8 a"

definition FHE_asEuint8_plain :: "8 word \<Rightarrow> euint8" where
  "FHE_asEuint8_plain v = Trivial8 v"

definition FHE_rem :: "euint32 \<Rightarrow> 32 word \<Rightarrow> euint32" where
  "FHE_rem a m = Rem32 a m"

definition FHE_add :: "euint32 \<Rightarrow> euint32 \<Rightarrow> euint32" where
  "FHE_add a b = Add32 a b"

definition FHE_lt :: "euint8 \<Rightarrow> euint8 \<Rightarrow> ebool" where
  "FHE_lt a b = Lt8 a b"

definition FHE_gt :: "euint8 \<Rightarrow> euint8 \<Rightarrow> ebool" where
  "FHE_gt a b = Gt8 a b"

definition FHE_select :: "ebool \<Rightarrow> euint8 \<Rightarrow> euint8 \<Rightarrow> euint8" where
  "FHE_select c a b = Select8 c a b"

text \<open>
  \<open>FHE.fromExternal(handle, inputProof)\<close>: the proof has to attest the handle for this
  contract and this sender, otherwise the call reverts.
\<close>

definition proof_ok :: "address \<Rightarrow> address \<Rightarrow> externalEuint8 \<Rightarrow> inputProof \<Rightarrow> bool" where
  "proof_ok this sender e p \<longleftrightarrow>
     proof_contract p = this \<and> proof_user p = sender \<and> e \<in> set (proof_handles p)"

definition FHE_fromExternal ::
  "address \<Rightarrow> address \<Rightarrow> externalEuint8 \<Rightarrow> inputProof \<Rightarrow> error + euint8" where
  "FHE_fromExternal this sender e p =
     (if proof_ok this sender e p then Inr (Input8 e) else Inl InvalidProof)"

definition FHE_allow :: "euint8 \<Rightarrow> address \<Rightarrow> state \<Rightarrow> state" where
  "FHE_allow h a s = s\<lparr>acl := insert (h, a) (acl s)\<rparr>"

definition FHE_allowThis :: "address \<Rightarrow> euint8 \<Rightarrow> state \<Rightarrow> state" where
  "FHE_allowThis this h s = FHE_allow h this s"

section \<open>The contract\<close>

text \<open>
  Every function takes the contract's own address \<open>this\<close> where the source uses it
  (through \<open>FHE.allowThis\<close> and the input verification) and \<open>msg.sender\<close> as
  \<open>sender\<close>. A \<open>revert\<close> is the \<open>Inl\<close> of the result.
\<close>

definition hasJoined :: "address \<Rightarrow> state \<Rightarrow> address \<Rightarrow> bool" where
  "hasJoined sender s player = active (players s player)"

definition randomCoordinate :: "8 word \<Rightarrow> state \<Rightarrow> euint8 \<times> state" where
  "randomCoordinate v s =
     (let (randomValue, s1) = FHE_randEuint8 v s;
          randomAs32 = FHE_asEuint32 randomValue;
          bounded = FHE_rem randomAs32 (ucast MAX_COORDINATE);
          shifted = FHE_add bounded (FHE_asEuint32_plain (ucast MIN_COORDINATE))
      in (FHE_asEuint8 shifted, s1))"

definition randomPosition :: "8 word \<Rightarrow> 8 word \<Rightarrow> state \<Rightarrow> (euint8 \<times> euint8) \<times> state" where
  "randomPosition vx vy s =
     (let (cx, s1) = randomCoordinate vx s;
          (cy, s2) = randomCoordinate vy s1
      in ((cx, cy), s2))"

definition grantAccess :: "address \<Rightarrow> address \<Rightarrow> address \<Rightarrow> state \<Rightarrow> state" where
  "grantAccess this player owner s =
     (let s1 = FHE_allowThis this (x (players s player)) s;
          s2 = FHE_allowThis this (y (players s1 player)) s1;
          s3 = FHE_allow (x (players s2 player)) owner s2
      in FHE_allow (y (players s3 player)) owner s3)"

definition clampCoordinate :: "euint8 \<Rightarrow> euint8" where
  "clampCoordinate coordinate =
     (let minValue = FHE_asEuint8_plain MIN_COORDINATE;
          maxValue = FHE_asEuint8_plain MAX_COORDINATE;
          belowMinimum = FHE_lt coordinate minValue;
          boundedMin = FHE_select belowMinimum minValue coordinate;
          aboveMaximum = FHE_gt boundedMin maxValue
      in FHE_select aboveMaximum maxValue boundedMin)"

definition emit :: "event \<Rightarrow> state \<Rightarrow> state" where
  "emit e s = s\<lparr>events := events s @ [e]\<rparr>"

text \<open>
  \<open>joinGame\<close>: \<open>vx\<close> and \<open>vy\<close> are the values that the two calls of \<open>FHE.randEuint8\<close>
  draw in this transaction.
\<close>

definition joinGame :: "address \<Rightarrow> address \<Rightarrow> 8 word \<Rightarrow> 8 word \<Rightarrow> state \<Rightarrow> error + state" where
  "joinGame this sender vx vy s =
     (if active (players s sender) then Inl PlayerAlreadyJoined
      else
        let ((cx, cy), s1) = randomPosition vx vy s;
            s2 = s1\<lparr>players := (players s1)(sender := (players s1 sender)\<lparr>x := cx, y := cy\<rparr>)\<rparr>;
            s3 = s2\<lparr>players := (players s2)(sender := (players s2 sender)\<lparr>active := True\<rparr>)\<rparr>;
            s4 = grantAccess this sender sender s3
        in Inr (emit (PlayerJoined sender) s4))"

definition move ::
  "address \<Rightarrow> address \<Rightarrow> externalEuint8 \<Rightarrow> externalEuint8 \<Rightarrow> inputProof \<Rightarrow> state
     \<Rightarrow> error + state" where
  "move this sender encryptedX encryptedY inputProof s =
     (if \<not> active (players s sender) then Inl PlayerNotRegistered
      else
        case FHE_fromExternal this sender encryptedX inputProof of
          Inl e \<Rightarrow> Inl e
        | Inr inX \<Rightarrow>
           (let nextX = clampCoordinate inX in
            case FHE_fromExternal this sender encryptedY inputProof of
              Inl e \<Rightarrow> Inl e
            | Inr inY \<Rightarrow>
               (let nextY = clampCoordinate inY;
                    s1 = s\<lparr>players := (players s)(sender := (players s sender)\<lparr>x := nextX\<rparr>)\<rparr>;
                    s2 = s1\<lparr>players := (players s1)(sender := (players s1 sender)\<lparr>y := nextY\<rparr>)\<rparr>;
                    s3 = grantAccess this sender sender s2
                in Inr (emit (PlayerMoved sender) s3))))"

definition getPlayerPosition :: "address \<Rightarrow> state \<Rightarrow> address \<Rightarrow> error + (euint8 \<times> euint8)" where
  "getPlayerPosition sender s player =
     (let storedPlayer = players s player
      in if \<not> active storedPlayer then Inl PlayerNotRegistered
         else Inr (x storedPlayer, y storedPlayer))"

definition gridBounds :: "8 word \<times> 8 word" where
  "gridBounds = (MIN_COORDINATE, MAX_COORDINATE)"

subsection \<open>Transactions\<close>

text \<open>
  A transaction is a call of one of the two state-changing functions by some sender. A
  call that reverts leaves the state as it was.
\<close>

datatype call = JoinGame "8 word" "8 word" | Move externalEuint8 externalEuint8 inputProof

fun exec :: "address \<Rightarrow> address \<Rightarrow> call \<Rightarrow> state \<Rightarrow> error + state" where
  "exec this sender (JoinGame vx vy) s = joinGame this sender vx vy s"
| "exec this sender (Move ex ey p) s = move this sender ex ey p s"

definition transact :: "address \<Rightarrow> state \<Rightarrow> address \<times> call \<Rightarrow> state" where
  "transact this s tx = (case exec this (fst tx) (snd tx) s of Inl e \<Rightarrow> s | Inr s' \<Rightarrow> s')"

fun run :: "address \<Rightarrow> state \<Rightarrow> (address \<times> call) list \<Rightarrow> state" where
  "run this s [] = s"
| "run this s (tx # txs) = run this (transact this s tx) txs"

text \<open>The reference clamp of the specification, on plaintexts.\<close>

definition clamp :: "nat \<Rightarrow> nat" where
  "clamp v = min (max v 1) 10"

subsection \<open>Predicates and reference definitions used by the properties\<close>

definition in_grid :: "euint8 \<Rightarrow> bool" where
  "in_grid c \<longleftrightarrow> 1 \<le> unat (decrypt8 c) \<and> unat (decrypt8 c) \<le> 10"

definition grid_invariant :: "state \<Rightarrow> bool" where
  "grid_invariant s \<longleftrightarrow>
     (\<forall>p. active (players s p) \<longrightarrow> in_grid (x (players s p)) \<and> in_grid (y (players s p)))"

text \<open>Whether a transaction is a \<open>joinGame\<close> that does not revert in state \<open>s\<close>.\<close>

fun join_succeeds :: "address \<Rightarrow> state \<Rightarrow> address \<times> call \<Rightarrow> bool" where
  "join_succeeds this s (sender, JoinGame vx vy) =
     (case joinGame this sender vx vy s of Inl e \<Rightarrow> False | Inr s' \<Rightarrow> True)"
| "join_succeeds this s (sender, Move ex ey p) = False"

text \<open>Whether some \<open>joinGame\<close> of \<open>p\<close> succeeded while \<open>txs\<close> ran from \<open>s\<close>.\<close>

fun join_succeeded :: "address \<Rightarrow> state \<Rightarrow> (address \<times> call) list \<Rightarrow> address \<Rightarrow> bool" where
  "join_succeeded this s [] p = False"
| "join_succeeded this s (tx # txs) p =
     ((fst tx = p \<and> join_succeeds this s tx) \<or> join_succeeded this (transact this s tx) txs p)"

text \<open>
  The join path as the specification words it: the raw candidate
  \<open>(random_u8 mod MAX) + MIN\<close> with the two-step select clamp applied to it.
\<close>

definition randomCoordinate_spec :: "8 word \<Rightarrow> state \<Rightarrow> euint8 \<times> state" where
  "randomCoordinate_spec v s =
     (let (raw, s1) = randomCoordinate v s in (clampCoordinate raw, s1))"

subsection \<open>A concrete scenario\<close>

definition alice :: address where
  "alice = 1"

definition bob :: address where
  "bob = 2"

definition ledger :: address where
  "ledger = 7"

definition joined :: state where
  "joined = transact ledger init (alice, JoinGame 255 13)"

definition proof_for :: "address \<Rightarrow> externalEuint8 \<Rightarrow> externalEuint8 \<Rightarrow> inputProof" where
  "proof_for user ex ey = \<lparr>proof_contract = ledger, proof_user = user, proof_handles = [ex, ey]\<rparr>"

definition two_steps :: "(address \<times> call) list" where
  "two_steps =
     [(alice, JoinGame 255 13),
      (alice, Move (ExternalEuint8 0 0) (ExternalEuint8 1 200)
         (proof_for alice (ExternalEuint8 0 0) (ExternalEuint8 1 200)))]"

section \<open>The decryption flow of the client\<close>























subsection \<open>A concrete run of the flow\<close>




section \<open>Properties of the ledger\<close>

lemmas FHE_defs =
  FHE_randEuint8_def FHE_asEuint32_def FHE_asEuint32_plain_def FHE_asEuint8_def
  FHE_asEuint8_plain_def FHE_rem_def FHE_add_def FHE_lt_def FHE_gt_def FHE_select_def
  FHE_fromExternal_def FHE_allow_def FHE_allowThis_def

lemmas scenario_defs =
  transact_def joinGame_def move_def randomPosition_def randomCoordinate_def grantAccess_def
  emit_def proof_ok_def proof_for_def init_def Let_def alice_def bob_def ledger_def
  MIN_COORDINATE_def MAX_COORDINATE_def

subsection \<open>Plaintext values of the two coordinate computations\<close>

lemma unat_u8_lt: "unat (v :: 8 word) < 256"
  using unsigned_less [of v, where ?'a = nat] by simp

lemma unat_widen: "unat (ucast (v :: 8 word) :: 32 word) = unat v"
proof -
  have "unat v < 2 ^ 32" using unat_u8_lt [of v] by simp
  then show ?thesis by (simp add: unsigned_ucast_eq take_bit_nat_eq_self)
qed

lemma randomCoordinate_handle:
  "fst (randomCoordinate v s) =
     Cast8 (Add32 (Rem32 (Cast32 (Rand8 (rand_counter s) v)) 10) (Trivial32 1))"
  by (simp add: randomCoordinate_def FHE_defs MIN_COORDINATE_def MAX_COORDINATE_def)

lemma randomCoordinate_value:
  "unat (decrypt8 (fst (randomCoordinate v s))) = unat v mod 10 + 1"
proof -
  have a: "unat ((ucast v :: 32 word) mod 10) = unat v mod 10"
    by (simp add: unat_mod unat_widen)
  have "unat v mod 10 < 10" by simp
  then have b: "unat ((ucast v :: 32 word) mod 10 + 1) = unat v mod 10 + 1"
    using a by (simp add: unat_word_ariths)
  have "unat (ucast ((ucast v :: 32 word) mod 10 + 1) :: 8 word) = take_bit 8 (unat v mod 10 + 1)"
    using b by (simp add: unsigned_ucast_eq)
  also have "\<dots> = unat v mod 10 + 1"
    by (rule take_bit_nat_eq_self) (simp add: less_Suc_eq_le [symmetric])
  finally show ?thesis
    by (simp add: randomCoordinate_handle)
qed

lemma randomCoordinate_in_grid: "in_grid (fst (randomCoordinate v s))"
  by (simp add: in_grid_def randomCoordinate_value)

lemma clampCoordinate_value:
  "unat (decrypt8 (clampCoordinate c)) = clamp (unat (decrypt8 c))"
  by (simp add: clampCoordinate_def FHE_defs MIN_COORDINATE_def MAX_COORDINATE_def clamp_def
      Let_def word_less_nat_alt)

lemma clampCoordinate_in_grid: "in_grid (clampCoordinate c)"
  by (simp add: in_grid_def clampCoordinate_value clamp_def)

subsection \<open>What each function does to the mapping\<close>

lemma players_grantAccess [simp]: "players (grantAccess this p owner s) = players s"
  by (simp add: grantAccess_def FHE_defs Let_def)

lemma players_emit [simp]: "players (emit e s) = players s"
  by (simp add: emit_def)

lemma players_randomCoordinate [simp]: "players (snd (randomCoordinate v s)) = players s"
  by (simp add: randomCoordinate_def FHE_defs split: prod.splits)

lemma joinGame_active:
  "active (players s p) \<Longrightarrow> joinGame this p vx vy s = Inl PlayerAlreadyJoined"
  by (simp add: joinGame_def)

lemma joinGame_fresh:
  assumes "\<not> active (players s p)"
  shows "\<exists>s'. joinGame this p vx vy s = Inr s' \<and>
           x (players s' p) = fst (randomCoordinate vx s) \<and>
           y (players s' p) = fst (randomCoordinate vy (snd (randomCoordinate vx s))) \<and>
           active (players s' p) \<and>
           (\<forall>q. q \<noteq> p \<longrightarrow> players s' q = players s q)"
proof -
  obtain cx s1 where r1: "randomCoordinate vx s = (cx, s1)"
    by (cases "randomCoordinate vx s")
  obtain cy s2 where r2: "randomCoordinate vy s1 = (cy, s2)"
    by (cases "randomCoordinate vy s1")
  have "players s1 = players s"
    using players_randomCoordinate [of vx s] by (simp add: r1)
  moreover have "players s2 = players s1"
    using players_randomCoordinate [of vy s1] by (simp add: r2)
  ultimately show ?thesis
    using assms by (simp add: joinGame_def randomPosition_def Let_def r1 r2)
qed

lemma move_inactive:
  "\<not> active (players s p) \<Longrightarrow> move this p ex ey pr s = Inl PlayerNotRegistered"
  by (simp add: move_def)

lemma move_bad_proof:
  "active (players s p) \<Longrightarrow> \<not> (proof_ok this p ex pr \<and> proof_ok this p ey pr) \<Longrightarrow>
     move this p ex ey pr s = Inl InvalidProof"
  by (auto simp add: move_def FHE_fromExternal_def)

lemma move_ok:
  assumes "active (players s p)" "proof_ok this p ex pr" "proof_ok this p ey pr"
  shows "\<exists>s'. move this p ex ey pr s = Inr s' \<and>
           x (players s' p) = clampCoordinate (Input8 ex) \<and>
           y (players s' p) = clampCoordinate (Input8 ey) \<and>
           active (players s' p) \<and>
           (\<forall>q. q \<noteq> p \<longrightarrow> players s' q = players s q)"
  using assms
  by (simp add: move_def FHE_fromExternal_def Let_def)

lemma transact_cases:
  "transact this s (p, c) = s \<or>
   (in_grid (x (players (transact this s (p, c)) p)) \<and>
    in_grid (y (players (transact this s (p, c)) p)) \<and>
    active (players (transact this s (p, c)) p) \<and>
    (\<forall>q. q \<noteq> p \<longrightarrow> players (transact this s (p, c)) q = players s q))"
proof (cases c)
  case (JoinGame vx vy)
  show ?thesis
  proof (cases "active (players s p)")
    case True
    then show ?thesis by (simp add: JoinGame transact_def joinGame_active)
  next
    case False
    from joinGame_fresh [OF False, of this vx vy] obtain s' where
      "joinGame this p vx vy s = Inr s'"
      "x (players s' p) = fst (randomCoordinate vx s)"
      "y (players s' p) = fst (randomCoordinate vy (snd (randomCoordinate vx s)))"
      "active (players s' p)" "\<forall>q. q \<noteq> p \<longrightarrow> players s' q = players s q"
      by blast
    then show ?thesis
      by (simp add: JoinGame transact_def randomCoordinate_in_grid)
  qed
next
  case (Move ex ey pr)
  show ?thesis
  proof (cases "active (players s p) \<and> proof_ok this p ex pr \<and> proof_ok this p ey pr")
    case True
    with move_ok [of s p this ex pr ey] obtain s' where
      "move this p ex ey pr s = Inr s'"
      "x (players s' p) = clampCoordinate (Input8 ex)"
      "y (players s' p) = clampCoordinate (Input8 ey)"
      "active (players s' p)" "\<forall>q. q \<noteq> p \<longrightarrow> players s' q = players s q"
      by blast
    then show ?thesis
      by (simp add: Move transact_def clampCoordinate_in_grid)
  next
    case False
    then have "\<exists>e. move this p ex ey pr s = Inl e"
      using move_inactive move_bad_proof by blast
    then show ?thesis by (auto simp add: Move transact_def)
  qed
qed

lemma transact_other:
  assumes "q \<noteq> p"
  shows "players (transact this s (p, c)) q = players s q"
  using transact_cases [of this s p c] assms by auto

lemma grid_invariant_transact:
  assumes "grid_invariant s"
  shows "grid_invariant (transact this s tx)"
proof -
  obtain p c where tx: "tx = (p, c)" by (cases tx)
  from transact_cases [of this s p c] show ?thesis
  proof
    assume "transact this s (p, c) = s"
    then show ?thesis using assms by (simp add: tx)
  next
    assume h: "in_grid (x (players (transact this s (p, c)) p)) \<and>
      in_grid (y (players (transact this s (p, c)) p)) \<and>
      active (players (transact this s (p, c)) p) \<and>
      (\<forall>q. q \<noteq> p \<longrightarrow> players (transact this s (p, c)) q = players s q)"
    show ?thesis
      unfolding grid_invariant_def tx
    proof (intro allI impI)
      fix q
      assume a: "active (players (transact this s (p, c)) q)"
      show "in_grid (x (players (transact this s (p, c)) q)) \<and>
            in_grid (y (players (transact this s (p, c)) q))"
      proof (cases "q = p")
        case True
        then show ?thesis using h by simp
      next
        case False
        then have "players (transact this s (p, c)) q = players s q" using h by simp
        then show ?thesis using a assms by (simp add: grid_invariant_def)
      qed
    qed
  qed
qed

lemma grid_invariant_init: "grid_invariant init"
  by (simp add: grid_invariant_def init_def)

lemma grid_invariant_run: "grid_invariant s \<Longrightarrow> grid_invariant (run this s txs)"
  by (induction txs arbitrary: s) (simp_all add: grid_invariant_transact)

subsection \<open>The concrete scenario\<close>

lemma inactive_init: "\<not> active (players init p)"
  by (simp add: init_def)

lemma active_joined: "active (players joined alice)"
  by (simp add: joined_def scenario_defs FHE_defs)

lemma inactive_joined_bob: "\<not> active (players joined bob)"
  by (simp add: joined_def scenario_defs FHE_defs)

lemma alice_bob: "bob \<noteq> alice"
  by (simp add: alice_def bob_def)

section \<open>The claims\<close>

text \<open>
  C1 (grid-bounds invariant). In every state reached from the initial state by any
  sequence of \<open>joinGame\<close> and \<open>move\<close> transactions of any senders, with any random draws
  and any inputs, every player whose record is active has stored ciphertexts \<open>x\<close> and
  \<open>y\<close> that decrypt to values between 1 and 10. No function of the contract decrypts
  anything: the bound comes from how the stored ciphertexts are built.
\<close>

theorem grid_bounds_invariant:
  assumes "active (players (run this init txs) p)"
  shows "1 \<le> unat (decrypt8 (x (players (run this init txs) p))) \<and>
         unat (decrypt8 (x (players (run this init txs) p))) \<le> 10 \<and>
         1 \<le> unat (decrypt8 (y (players (run this init txs) p))) \<and>
         unat (decrypt8 (y (players (run this init txs) p))) \<le> 10"
  using grid_invariant_run [OF grid_invariant_init, of this txs] assms
  by (simp add: grid_invariant_def in_grid_def)

theorem grid_bounds_invariant_witness:
  "active (players (run ledger init two_steps) alice) \<and>
   unat (decrypt8 (x (players (run ledger init two_steps) alice))) = 1 \<and>
   unat (decrypt8 (y (players (run ledger init two_steps) alice))) = 10 \<and>
   1 \<le> unat (decrypt8 (x (players (run ledger init two_steps) alice))) \<and>
   unat (decrypt8 (x (players (run ledger init two_steps) alice))) \<le> 10 \<and>
   1 \<le> unat (decrypt8 (y (players (run ledger init two_steps) alice))) \<and>
   unat (decrypt8 (y (players (run ledger init two_steps) alice))) \<le> 10"
proof -
  have a: "active (players (run ledger init two_steps) alice)"
    by (simp add: two_steps_def scenario_defs FHE_defs)
  have b: "unat (decrypt8 (x (players (run ledger init two_steps) alice))) = 1"
    by (simp add: two_steps_def scenario_defs FHE_defs clampCoordinate_def)
  have c: "unat (decrypt8 (y (players (run ledger init two_steps) alice))) = 10"
    by (simp add: two_steps_def scenario_defs FHE_defs clampCoordinate_def)
  from grid_bounds_invariant [OF a] a b c show ?thesis by blast
qed

text \<open>
  C2 (move clamp correctness). For a player that has joined and inputs that the proof
  attests, \<open>move\<close> succeeds, \<open>getPlayerPosition\<close> then returns the stored pair for any
  caller, and the stored pair decrypts to \<open>(clamp x, clamp y)\<close> with
  \<open>clamp v = min (max v 1) 10\<close>, whatever the state was before. The two selects of
  \<open>_clampCoordinate\<close> compute this reference clamp on every ciphertext.
\<close>

theorem move_clamp:
  assumes "active (players s p)" "proof_ok this p ex pr" "proof_ok this p ey pr"
  shows "\<exists>s'. move this p ex ey pr s = Inr s' \<and>
           getPlayerPosition caller s' p = Inr (x (players s' p), y (players s' p)) \<and>
           unat (decrypt8 (x (players s' p))) = clamp (unat (ext_value ex)) \<and>
           unat (decrypt8 (y (players s' p))) = clamp (unat (ext_value ey)) \<and>
           (\<forall>c. unat (decrypt8 (clampCoordinate c)) = min (max (unat (decrypt8 c)) 1) 10)"
proof -
  from move_ok [OF assms] obtain s' where
    m: "move this p ex ey pr s = Inr s'"
    and mx: "x (players s' p) = clampCoordinate (Input8 ex)"
    and my: "y (players s' p) = clampCoordinate (Input8 ey)"
    and ma: "active (players s' p)"
    by blast
  have "getPlayerPosition caller s' p = Inr (x (players s' p), y (players s' p))"
    using ma by (simp add: getPlayerPosition_def Let_def)
  moreover have "unat (decrypt8 (x (players s' p))) = clamp (unat (ext_value ex))"
    by (simp add: mx clampCoordinate_value)
  moreover have "unat (decrypt8 (y (players s' p))) = clamp (unat (ext_value ey))"
    by (simp add: my clampCoordinate_value)
  moreover have "\<forall>c. unat (decrypt8 (clampCoordinate c)) = min (max (unat (decrypt8 c)) 1) 10"
    using clampCoordinate_value by (simp add: clamp_def)
  ultimately show ?thesis using m by blast
qed

text \<open>The two examples of the specification: \<open>move(0, 42)\<close> and \<open>move(7, 8)\<close>.\<close>

theorem move_clamp_witness:
  "active (players joined alice) \<and>
   (\<exists>s'. move ledger alice (ExternalEuint8 0 0) (ExternalEuint8 1 42)
            (proof_for alice (ExternalEuint8 0 0) (ExternalEuint8 1 42)) joined = Inr s' \<and>
          unat (decrypt8 (x (players s' alice))) = 1 \<and>
          unat (decrypt8 (y (players s' alice))) = 10) \<and>
   (\<exists>s'. move ledger alice (ExternalEuint8 2 7) (ExternalEuint8 3 8)
            (proof_for alice (ExternalEuint8 2 7) (ExternalEuint8 3 8)) joined = Inr s' \<and>
          unat (decrypt8 (x (players s' alice))) = 7 \<and>
          unat (decrypt8 (y (players s' alice))) = 8)"
proof -
  have p1: "proof_ok ledger alice (ExternalEuint8 0 0)
              (proof_for alice (ExternalEuint8 0 0) (ExternalEuint8 1 42))"
       "proof_ok ledger alice (ExternalEuint8 1 42)
              (proof_for alice (ExternalEuint8 0 0) (ExternalEuint8 1 42))"
    by (simp_all add: proof_ok_def proof_for_def)
  have p2: "proof_ok ledger alice (ExternalEuint8 2 7)
              (proof_for alice (ExternalEuint8 2 7) (ExternalEuint8 3 8))"
       "proof_ok ledger alice (ExternalEuint8 3 8)
              (proof_for alice (ExternalEuint8 2 7) (ExternalEuint8 3 8))"
    by (simp_all add: proof_ok_def proof_for_def)
  from move_clamp [OF active_joined p1, of bob] obtain s1 where
    "move ledger alice (ExternalEuint8 0 0) (ExternalEuint8 1 42)
       (proof_for alice (ExternalEuint8 0 0) (ExternalEuint8 1 42)) joined = Inr s1"
    "unat (decrypt8 (x (players s1 alice))) = clamp (unat (ext_value (ExternalEuint8 0 0)))"
    "unat (decrypt8 (y (players s1 alice))) = clamp (unat (ext_value (ExternalEuint8 1 42)))"
    by blast
  then have c1: "\<exists>s'. move ledger alice (ExternalEuint8 0 0) (ExternalEuint8 1 42)
            (proof_for alice (ExternalEuint8 0 0) (ExternalEuint8 1 42)) joined = Inr s' \<and>
          unat (decrypt8 (x (players s' alice))) = 1 \<and>
          unat (decrypt8 (y (players s' alice))) = 10"
    by (simp add: clamp_def)
  from move_clamp [OF active_joined p2, of bob] obtain s2 where
    "move ledger alice (ExternalEuint8 2 7) (ExternalEuint8 3 8)
       (proof_for alice (ExternalEuint8 2 7) (ExternalEuint8 3 8)) joined = Inr s2"
    "unat (decrypt8 (x (players s2 alice))) = clamp (unat (ext_value (ExternalEuint8 2 7)))"
    "unat (decrypt8 (y (players s2 alice))) = clamp (unat (ext_value (ExternalEuint8 3 8)))"
    by blast
  then have c2: "\<exists>s'. move ledger alice (ExternalEuint8 2 7) (ExternalEuint8 3 8)
            (proof_for alice (ExternalEuint8 2 7) (ExternalEuint8 3 8)) joined = Inr s' \<and>
          unat (decrypt8 (x (players s' alice))) = 7 \<and>
          unat (decrypt8 (y (players s' alice))) = 8"
    by (simp add: clamp_def)
  from active_joined c1 c2 show ?thesis by blast
qed

text \<open>
  C3 (join randomness range). For a player that has not joined, \<open>joinGame\<close> succeeds for
  every pair of random draws; each stored coordinate is the 8-bit narrowing of
  \<open>(widen32(draw) rem 10) + 1\<close>, decrypts to \<open>(draw mod 10) + 1\<close>, and so lies between 1
  and 10.
\<close>

theorem joinGame_random_range:
  assumes "\<not> active (players s p)"
  shows "\<exists>s'. joinGame this p vx vy s = Inr s' \<and>
           x (players s' p) =
             Cast8 (Add32 (Rem32 (Cast32 (Rand8 (rand_counter s) vx)) 10) (Trivial32 1)) \<and>
           y (players s' p) =
             Cast8 (Add32 (Rem32 (Cast32 (Rand8 (Suc (rand_counter s)) vy)) 10) (Trivial32 1)) \<and>
           unat (decrypt8 (x (players s' p))) = unat vx mod 10 + 1 \<and>
           unat (decrypt8 (y (players s' p))) = unat vy mod 10 + 1 \<and>
           1 \<le> unat (decrypt8 (x (players s' p))) \<and> unat (decrypt8 (x (players s' p))) \<le> 10 \<and>
           1 \<le> unat (decrypt8 (y (players s' p))) \<and> unat (decrypt8 (y (players s' p))) \<le> 10"
proof -
  from joinGame_fresh [OF assms, of this vx vy] obtain s' where
    j: "joinGame this p vx vy s = Inr s'"
    and jx: "x (players s' p) = fst (randomCoordinate vx s)"
    and jy: "y (players s' p) = fst (randomCoordinate vy (snd (randomCoordinate vx s)))"
    by blast
  have c: "rand_counter (snd (randomCoordinate vx s)) = Suc (rand_counter s)"
    by (simp add: randomCoordinate_def FHE_defs)
  have hx: "x (players s' p) =
      Cast8 (Add32 (Rem32 (Cast32 (Rand8 (rand_counter s) vx)) 10) (Trivial32 1))"
    by (simp add: jx randomCoordinate_handle)
  have hy: "y (players s' p) =
      Cast8 (Add32 (Rem32 (Cast32 (Rand8 (Suc (rand_counter s)) vy)) 10) (Trivial32 1))"
    by (simp add: jy randomCoordinate_handle c)
  have vx: "unat (decrypt8 (x (players s' p))) = unat vx mod 10 + 1"
    unfolding jx by (rule randomCoordinate_value)
  have vy: "unat (decrypt8 (y (players s' p))) = unat vy mod 10 + 1"
    unfolding jy by (rule randomCoordinate_value)
  have "unat vx mod 10 < 10" "unat vy mod 10 < 10" by simp_all
  then have "1 \<le> unat (decrypt8 (x (players s' p))) \<and> unat (decrypt8 (x (players s' p))) \<le> 10 \<and>
    1 \<le> unat (decrypt8 (y (players s' p))) \<and> unat (decrypt8 (y (players s' p))) \<le> 10"
    unfolding vx vy by arith
  with j hx hy vx vy show ?thesis by blast
qed

theorem joinGame_random_range_witness:
  "\<not> active (players init alice) \<and>
   (\<exists>s'. joinGame ledger alice 255 0 init = Inr s' \<and>
          unat (decrypt8 (x (players s' alice))) = 6 \<and>
          unat (decrypt8 (y (players s' alice))) = 1)"
proof -
  from joinGame_random_range [OF inactive_init, of ledger alice 255 0] obtain s' where
    "joinGame ledger alice 255 0 init = Inr s'"
    "unat (decrypt8 (x (players s' alice))) = unat (255 :: 8 word) mod 10 + 1"
    "unat (decrypt8 (y (players s' alice))) = unat (0 :: 8 word) mod 10 + 1"
    by blast
  then have "\<exists>s'. joinGame ledger alice 255 0 init = Inr s' \<and>
          unat (decrypt8 (x (players s' alice))) = 6 \<and>
          unat (decrypt8 (y (players s' alice))) = 1"
    by simp
  with inactive_init show ?thesis by blast
qed

text \<open>
  C4 (uniform clamping on both paths), as the specification states it: the coordinate
  that \<open>joinGame\<close> stores is the two-step select clamp applied to the raw candidate. It is
  not: \<open>_randomCoordinate\<close> returns the raw candidate \<open>asEuint8((asEuint32(rand) rem 10) + 1)\<close>
  itself and never calls \<open>_clampCoordinate\<close>, so the stored ciphertext is the result of a
  cast, not of a select. Here for the draw 0, in the initial state.
\<close>

theorem join_clamp_counterexample:
  "fst (randomCoordinate 0 init) \<noteq> fst (randomCoordinate_spec 0 init) \<and>
   x (players (transact ledger init (alice, JoinGame 0 0)) alice) =
     Cast8 (Add32 (Rem32 (Cast32 (Rand8 0 0)) 10) (Trivial32 1)) \<and>
   x (players (transact ledger init (alice, JoinGame 0 0)) alice) \<noteq>
     clampCoordinate (Cast8 (Add32 (Rem32 (Cast32 (Rand8 0 0)) 10) (Trivial32 1)))"
  by (simp add: randomCoordinate_spec_def clampCoordinate_def scenario_defs FHE_defs)

text \<open>
  C4, amended. The two-step select clamp is applied on the move path only: \<open>move\<close>
  stores \<open>_clampCoordinate\<close> of each imported input. On the join path \<open>joinGame\<close> stores
  the raw candidate that \<open>_randomCoordinate\<close> returns, the cast
  \<open>asEuint8((asEuint32(rand) rem 10) + 1)\<close>, which is the result of no clamp and differs
  from what the specification's wording of the join path gives. For every draw it
  decrypts to the same plaintext as the clamp of the raw candidate: the raw candidate
  \<open>(draw mod 10) + 1\<close> is already between 1 and 10, where the clamp is the identity.
\<close>

theorem join_value_equals_clamped:
  "(\<not> active (players s p) \<longrightarrow>
      (\<exists>s'. joinGame this p vx vy s = Inr s' \<and>
         x (players s' p) = fst (randomCoordinate vx s) \<and>
         y (players s' p) = fst (randomCoordinate vy (snd (randomCoordinate vx s))) \<and>
         x (players s' p) =
           Cast8 (Add32 (Rem32 (Cast32 (Rand8 (rand_counter s) vx)) 10) (Trivial32 1)) \<and>
         y (players s' p) =
           Cast8 (Add32 (Rem32 (Cast32 (Rand8 (Suc (rand_counter s)) vy)) 10) (Trivial32 1)) \<and>
         (\<forall>c. x (players s' p) \<noteq> clampCoordinate c) \<and>
         (\<forall>c. y (players s' p) \<noteq> clampCoordinate c) \<and>
         x (players s' p) \<noteq> fst (randomCoordinate_spec vx s) \<and>
         y (players s' p) \<noteq> fst (randomCoordinate_spec vy (snd (randomCoordinate_spec vx s))) \<and>
         decrypt8 (x (players s' p)) = decrypt8 (fst (randomCoordinate_spec vx s)) \<and>
         decrypt8 (y (players s' p)) =
           decrypt8 (fst (randomCoordinate_spec vy (snd (randomCoordinate_spec vx s)))) \<and>
         decrypt8 (x (players s' p)) = decrypt8 (clampCoordinate (x (players s' p))) \<and>
         decrypt8 (y (players s' p)) = decrypt8 (clampCoordinate (y (players s' p))) \<and>
         unat (decrypt8 (x (players s' p))) = clamp (unat vx mod 10 + 1) \<and>
         unat (decrypt8 (y (players s' p))) = clamp (unat vy mod 10 + 1))) \<and>
   (active (players t q) \<and> proof_ok this q ex pr \<and> proof_ok this q ey pr \<longrightarrow>
      (\<exists>t'. move this q ex ey pr t = Inr t' \<and>
         x (players t' q) = clampCoordinate (Input8 ex) \<and>
         y (players t' q) = clampCoordinate (Input8 ey)))"
proof -
  have sel: "clampCoordinate c =
      Select8 (Gt8 (Select8 (Lt8 c (Trivial8 1)) (Trivial8 1) c) (Trivial8 10)) (Trivial8 10)
        (Select8 (Lt8 c (Trivial8 1)) (Trivial8 1) c)" for c
    by (simp add: clampCoordinate_def FHE_defs MIN_COORDINATE_def MAX_COORDINATE_def Let_def)
  have ne: "fst (randomCoordinate v u) \<noteq> clampCoordinate c" for v u c
    by (simp add: randomCoordinate_handle sel)
  have sp: "fst (randomCoordinate_spec v u) = clampCoordinate (fst (randomCoordinate v u))"
    for v u
    by (simp add: randomCoordinate_spec_def split: prod.splits)
  have st: "snd (randomCoordinate_spec v u) = snd (randomCoordinate v u)" for v u
    by (simp add: randomCoordinate_spec_def split: prod.splits)
  have cl: "clamp (unat v mod 10 + 1) = unat v mod 10 + 1" for v :: "8 word"
  proof -
    have "unat v mod 10 < 10" by simp
    then show ?thesis unfolding clamp_def by arith
  qed
  have eq: "decrypt8 (fst (randomCoordinate v u)) =
      decrypt8 (clampCoordinate (fst (randomCoordinate v u)))" for v u
  proof -
    have "unat (decrypt8 (clampCoordinate (fst (randomCoordinate v u)))) =
        clamp (unat v mod 10 + 1)"
      by (simp only: clampCoordinate_value randomCoordinate_value)
    then have "unat (decrypt8 (clampCoordinate (fst (randomCoordinate v u)))) =
        unat v mod 10 + 1"
      by (simp only: cl)
    then show ?thesis
      by (simp only: word_unat_eq_iff randomCoordinate_value)
  qed
  have join: "\<exists>s'. joinGame this p vx vy s = Inr s' \<and>
         x (players s' p) = fst (randomCoordinate vx s) \<and>
         y (players s' p) = fst (randomCoordinate vy (snd (randomCoordinate vx s))) \<and>
         x (players s' p) =
           Cast8 (Add32 (Rem32 (Cast32 (Rand8 (rand_counter s) vx)) 10) (Trivial32 1)) \<and>
         y (players s' p) =
           Cast8 (Add32 (Rem32 (Cast32 (Rand8 (Suc (rand_counter s)) vy)) 10) (Trivial32 1)) \<and>
         (\<forall>c. x (players s' p) \<noteq> clampCoordinate c) \<and>
         (\<forall>c. y (players s' p) \<noteq> clampCoordinate c) \<and>
         x (players s' p) \<noteq> fst (randomCoordinate_spec vx s) \<and>
         y (players s' p) \<noteq> fst (randomCoordinate_spec vy (snd (randomCoordinate_spec vx s))) \<and>
         decrypt8 (x (players s' p)) = decrypt8 (fst (randomCoordinate_spec vx s)) \<and>
         decrypt8 (y (players s' p)) =
           decrypt8 (fst (randomCoordinate_spec vy (snd (randomCoordinate_spec vx s)))) \<and>
         decrypt8 (x (players s' p)) = decrypt8 (clampCoordinate (x (players s' p))) \<and>
         decrypt8 (y (players s' p)) = decrypt8 (clampCoordinate (y (players s' p))) \<and>
         unat (decrypt8 (x (players s' p))) = clamp (unat vx mod 10 + 1) \<and>
         unat (decrypt8 (y (players s' p))) = clamp (unat vy mod 10 + 1)"
    if inactive: "\<not> active (players s p)"
  proof -
    from joinGame_fresh [OF inactive, of this vx vy] obtain s' where
      j: "joinGame this p vx vy s = Inr s'"
      and jx: "x (players s' p) = fst (randomCoordinate vx s)"
      and jy: "y (players s' p) = fst (randomCoordinate vy (snd (randomCoordinate vx s)))"
      by blast
    have cnt: "rand_counter (snd (randomCoordinate vx s)) = Suc (rand_counter s)"
      by (simp add: randomCoordinate_def FHE_defs)
    have hx: "x (players s' p) =
        Cast8 (Add32 (Rem32 (Cast32 (Rand8 (rand_counter s) vx)) 10) (Trivial32 1))"
      by (simp add: jx randomCoordinate_handle)
    have hy: "y (players s' p) =
        Cast8 (Add32 (Rem32 (Cast32 (Rand8 (Suc (rand_counter s)) vy)) 10) (Trivial32 1))"
      by (simp add: jy randomCoordinate_handle cnt)
    have nx: "\<forall>c. x (players s' p) \<noteq> clampCoordinate c"
      unfolding jx using ne by blast
    have ny: "\<forall>c. y (players s' p) \<noteq> clampCoordinate c"
      unfolding jy using ne by blast
    have sx: "x (players s' p) \<noteq> fst (randomCoordinate_spec vx s)"
      unfolding sp using nx by blast
    have sy: "y (players s' p) \<noteq> fst (randomCoordinate_spec vy (snd (randomCoordinate_spec vx s)))"
      unfolding sp using ny by blast
    have ex: "decrypt8 (x (players s' p)) = decrypt8 (clampCoordinate (x (players s' p)))"
      unfolding jx by (rule eq)
    have ey: "decrypt8 (y (players s' p)) = decrypt8 (clampCoordinate (y (players s' p)))"
      unfolding jy by (rule eq)
    have dx: "decrypt8 (x (players s' p)) = decrypt8 (fst (randomCoordinate_spec vx s))"
      unfolding sp jx by (rule eq)
    have dy: "decrypt8 (y (players s' p)) =
        decrypt8 (fst (randomCoordinate_spec vy (snd (randomCoordinate_spec vx s))))"
      unfolding sp st jy by (rule eq)
    have ux: "unat (decrypt8 (x (players s' p))) = clamp (unat vx mod 10 + 1)"
      unfolding jx cl by (rule randomCoordinate_value)
    have uy: "unat (decrypt8 (y (players s' p))) = clamp (unat vy mod 10 + 1)"
      unfolding jy cl by (rule randomCoordinate_value)
    from j jx jy hx hy nx ny sx sy dx dy ex ey ux uy show ?thesis by blast
  qed
  have mv: "\<exists>t'. move this q ex ey pr t = Inr t' \<and>
         x (players t' q) = clampCoordinate (Input8 ex) \<and>
         y (players t' q) = clampCoordinate (Input8 ey)"
    if "active (players t q) \<and> proof_ok this q ex pr \<and> proof_ok this q ey pr"
    using move_ok [of t q this ex pr ey] that by blast
  from join mv show ?thesis by blast
qed

theorem join_value_equals_clamped_witness:
  "\<not> active (players init alice) \<and>
   (\<exists>s'. joinGame ledger alice 0 19 init = Inr s' \<and>
          x (players s' alice) = Cast8 (Add32 (Rem32 (Cast32 (Rand8 0 0)) 10) (Trivial32 1)) \<and>
          x (players s' alice) \<noteq> clampCoordinate (x (players s' alice)) \<and>
          unat (decrypt8 (x (players s' alice))) = 1 \<and>
          unat (decrypt8 (y (players s' alice))) = 10) \<and>
   active (players joined alice) \<and>
   (\<exists>t'. move ledger alice (ExternalEuint8 0 0) (ExternalEuint8 1 42)
            (proof_for alice (ExternalEuint8 0 0) (ExternalEuint8 1 42)) joined = Inr t' \<and>
          x (players t' alice) = clampCoordinate (Input8 (ExternalEuint8 0 0)) \<and>
          y (players t' alice) = clampCoordinate (Input8 (ExternalEuint8 1 42)))"
proof -
  have pr: "proof_ok ledger alice (ExternalEuint8 0 0)
              (proof_for alice (ExternalEuint8 0 0) (ExternalEuint8 1 42)) \<and>
            proof_ok ledger alice (ExternalEuint8 1 42)
              (proof_for alice (ExternalEuint8 0 0) (ExternalEuint8 1 42))"
    by (simp add: proof_ok_def proof_for_def)
  note inst = join_value_equals_clamped [of init alice ledger 0 19 joined alice
      "ExternalEuint8 0 0" "proof_for alice (ExternalEuint8 0 0) (ExternalEuint8 1 42)"
      "ExternalEuint8 1 42"]
  from inst inactive_init obtain s' where
    j: "joinGame ledger alice 0 19 init = Inr s'"
    and hx: "x (players s' alice) =
        Cast8 (Add32 (Rem32 (Cast32 (Rand8 (rand_counter init) 0)) 10) (Trivial32 1))"
    and nx: "\<forall>c. x (players s' alice) \<noteq> clampCoordinate c"
    and ux: "unat (decrypt8 (x (players s' alice))) = clamp (unat (0 :: 8 word) mod 10 + 1)"
    and uy: "unat (decrypt8 (y (players s' alice))) = clamp (unat (19 :: 8 word) mod 10 + 1)"
    by blast
  have c0: "rand_counter init = 0" by (simp add: init_def)
  have a: "\<exists>s'. joinGame ledger alice 0 19 init = Inr s' \<and>
          x (players s' alice) = Cast8 (Add32 (Rem32 (Cast32 (Rand8 0 0)) 10) (Trivial32 1)) \<and>
          x (players s' alice) \<noteq> clampCoordinate (x (players s' alice)) \<and>
          unat (decrypt8 (x (players s' alice))) = 1 \<and>
          unat (decrypt8 (y (players s' alice))) = 10"
    using j hx nx ux uy by (simp add: clamp_def c0)
  from inst active_joined pr
  have b: "\<exists>t'. move ledger alice (ExternalEuint8 0 0) (ExternalEuint8 1 42)
            (proof_for alice (ExternalEuint8 0 0) (ExternalEuint8 1 42)) joined = Inr t' \<and>
          x (players t' alice) = clampCoordinate (Input8 (ExternalEuint8 0 0)) \<and>
          y (players t' alice) = clampCoordinate (Input8 (ExternalEuint8 1 42))"
    by blast
  from inactive_init a active_joined b show ?thesis by blast
qed

text \<open>
  C5 (double join rejected, atomically). For a player whose record is active, \<open>joinGame\<close>
  reverts with \<open>PlayerAlreadyJoined\<close> for every pair of draws, and the state after the
  transaction (records, access grants, random counter, events) is the state before it.
  In particular a \<open>joinGame\<close> that follows a successful \<open>joinGame\<close> of the same sender is
  rejected in this way.
\<close>

theorem joinGame_twice_rejected:
  "(active (players s p) \<longrightarrow>
      joinGame this p vx vy s = Inl PlayerAlreadyJoined \<and>
      transact this s (p, JoinGame vx vy) = s) \<and>
   (joinGame this p wx wy s = Inr s' \<longrightarrow>
      joinGame this p vx vy s' = Inl PlayerAlreadyJoined \<and>
      transact this s' (p, JoinGame vx vy) = s')"
proof -
  have rej: "joinGame this p vx vy t = Inl PlayerAlreadyJoined \<and>
      transact this t (p, JoinGame vx vy) = t" if "active (players t p)" for t
    using that by (simp add: transact_def joinGame_active)
  have "active (players s' p)" if j: "joinGame this p wx wy s = Inr s'"
  proof (cases "active (players s p)")
    case True
    with j show ?thesis by (simp add: joinGame_active)
  next
    case False
    from joinGame_fresh [OF False, of this wx wy] j show ?thesis by auto
  qed
  with rej show ?thesis by blast
qed

theorem joinGame_twice_rejected_witness:
  "active (players joined alice) \<and>
   joinGame ledger alice 3 4 joined = Inl PlayerAlreadyJoined \<and>
   transact ledger joined (alice, JoinGame 3 4) = joined \<and>
   (\<exists>s'. joinGame ledger alice 255 13 init = Inr s' \<and>
          joinGame ledger alice 3 4 s' = Inl PlayerAlreadyJoined \<and>
          transact ledger s' (alice, JoinGame 3 4) = s')"
proof -
  from joinGame_fresh [OF inactive_init, of ledger alice 255 13] obtain s' where
    j: "joinGame ledger alice 255 13 init = Inr s'"
    by blast
  from joinGame_twice_rejected [of joined alice ledger 3 4 255 13 s'] active_joined
  have a: "joinGame ledger alice 3 4 joined = Inl PlayerAlreadyJoined \<and>
      transact ledger joined (alice, JoinGame 3 4) = joined"
    by blast
  from joinGame_twice_rejected [of init alice ledger 3 4 255 13 s'] j
  have b: "joinGame ledger alice 3 4 s' = Inl PlayerAlreadyJoined \<and>
      transact ledger s' (alice, JoinGame 3 4) = s'"
    by blast
  from active_joined a b j show ?thesis by blast
qed

text \<open>
  C6 (not-registered rejection). For a player whose record is not active,
  \<open>getPlayerPosition\<close> fails with \<open>PlayerNotRegistered\<close> for any caller, and \<open>move\<close> by
  that player fails with \<open>PlayerNotRegistered\<close> for any inputs and leaves the state as it
  was. For a player whose record is active neither function raises that error.
\<close>

theorem not_registered_rejected:
  "(\<not> active (players s p) \<longrightarrow>
      getPlayerPosition caller s p = Inl PlayerNotRegistered \<and>
      move this p ex ey pr s = Inl PlayerNotRegistered \<and>
      transact this s (p, Move ex ey pr) = s) \<and>
   (active (players s p) \<longrightarrow>
      getPlayerPosition caller s p \<noteq> Inl PlayerNotRegistered \<and>
      move this p ex ey pr s \<noteq> Inl PlayerNotRegistered)"
proof (cases "active (players s p)")
  case False
  then show ?thesis
    by (simp add: getPlayerPosition_def transact_def move_inactive)
next
  case True
  have "move this p ex ey pr s \<noteq> Inl PlayerNotRegistered"
  proof (cases "proof_ok this p ex pr \<and> proof_ok this p ey pr")
    case True
    with move_ok [of s p this ex pr ey] \<open>active (players s p)\<close> show ?thesis by auto
  next
    case False
    with move_bad_proof [of s p this ex pr ey] \<open>active (players s p)\<close> show ?thesis by simp
  qed
  with True show ?thesis by (simp add: getPlayerPosition_def Let_def)
qed

theorem not_registered_rejected_witness:
  "\<not> active (players joined bob) \<and>
   getPlayerPosition alice joined bob = Inl PlayerNotRegistered \<and>
   move ledger bob (ExternalEuint8 0 5) (ExternalEuint8 1 6)
     (proof_for bob (ExternalEuint8 0 5) (ExternalEuint8 1 6)) joined = Inl PlayerNotRegistered \<and>
   active (players joined alice) \<and>
   getPlayerPosition bob joined alice \<noteq> Inl PlayerNotRegistered \<and>
   move ledger alice (ExternalEuint8 0 5) (ExternalEuint8 1 6)
     (proof_for alice (ExternalEuint8 0 5) (ExternalEuint8 1 6)) joined \<noteq> Inl PlayerNotRegistered"
  using
    not_registered_rejected [of joined bob alice ledger "ExternalEuint8 0 5" "ExternalEuint8 1 6"
      "proof_for bob (ExternalEuint8 0 5) (ExternalEuint8 1 6)"]
    not_registered_rejected [of joined alice bob ledger "ExternalEuint8 0 5" "ExternalEuint8 1 6"
      "proof_for alice (ExternalEuint8 0 5) (ExternalEuint8 1 6)"]
    active_joined inactive_joined_bob
  by simp

text \<open>
  C7 (permissionless handle read). The result of \<open>getPlayerPosition\<close> is determined by
  the stored record of the queried player alone: two calls by any two callers, in any two
  states that agree on that record, give the same result. For an active record the
  result is the stored pair of handles, also when the caller is not the queried player.
\<close>

theorem getPlayerPosition_permissionless:
  "(players s p = players s' p \<longrightarrow>
      getPlayerPosition caller1 s p = getPlayerPosition caller2 s' p) \<and>
   getPlayerPosition caller1 s p = getPlayerPosition caller2 s p \<and>
   (active (players s p) \<longrightarrow>
      getPlayerPosition caller1 s p = Inr (x (players s p), y (players s p)))"
  by (simp add: getPlayerPosition_def Let_def)

theorem getPlayerPosition_permissionless_witness:
  "active (players joined alice) \<and>
   bob \<noteq> alice \<and>
   getPlayerPosition bob joined alice = getPlayerPosition alice joined alice \<and>
   getPlayerPosition bob joined alice =
     Inr (Cast8 (Add32 (Rem32 (Cast32 (Rand8 0 255)) 10) (Trivial32 1)),
          Cast8 (Add32 (Rem32 (Cast32 (Rand8 1 13)) 10) (Trivial32 1)))"
proof -
  have hx: "x (players joined alice) = Cast8 (Add32 (Rem32 (Cast32 (Rand8 0 255)) 10) (Trivial32 1))"
    by (simp add: joined_def scenario_defs FHE_defs)
  have hy: "y (players joined alice) = Cast8 (Add32 (Rem32 (Cast32 (Rand8 1 13)) 10) (Trivial32 1))"
    by (simp add: joined_def scenario_defs FHE_defs)
  have e1: "getPlayerPosition bob joined alice = getPlayerPosition alice joined alice"
    using getPlayerPosition_permissionless [of joined alice joined bob alice] by blast
  have e2: "getPlayerPosition bob joined alice =
      Inr (x (players joined alice), y (players joined alice))"
    using getPlayerPosition_permissionless [of joined alice joined bob alice] active_joined
    by blast
  from e1 e2 [unfolded hx hy] active_joined alice_bob show ?thesis by blast
qed

text \<open>
  C9 (per-identity frame condition). A \<open>joinGame\<close> or \<open>move\<close> transaction of \<open>p\<close>, whether
  it succeeds or reverts, leaves the record of every other identity \<open>q\<close> as it was.
\<close>

theorem other_records_unchanged:
  assumes "q \<noteq> p"
  shows "players (transact this s (p, c)) q = players s q \<and>
         (\<forall>s'. joinGame this p vx vy s = Inr s' \<longrightarrow> players s' q = players s q) \<and>
         (\<forall>s'. move this p ex ey pr s = Inr s' \<longrightarrow> players s' q = players s q)"
proof -
  have j: "players s' q = players s q" if "joinGame this p vx vy s = Inr s'" for s'
    using transact_other [OF assms, of this s "JoinGame vx vy"] that
    by (simp add: transact_def)
  have m: "players s' q = players s q" if "move this p ex ey pr s = Inr s'" for s'
    using transact_other [OF assms, of this s "Move ex ey pr"] that
    by (simp add: transact_def)
  from transact_other [OF assms, of this s c] j m show ?thesis by blast
qed

theorem other_records_unchanged_witness:
  "alice \<noteq> bob \<and>
   (\<exists>s'. joinGame ledger bob 4 5 joined = Inr s' \<and> active (players s' bob) \<and>
          players s' alice = players joined alice)"
proof -
  from joinGame_fresh [OF inactive_joined_bob, of ledger 4 5] obtain s' where
    j: "joinGame ledger bob 4 5 joined = Inr s'" and a: "active (players s' bob)"
    by blast
  have ne: "alice \<noteq> bob" using alice_bob by simp
  from other_records_unchanged [OF ne, of ledger joined "JoinGame 4 5" 4 5] j
  have "players s' alice = players joined alice" by simp
  with j a ne show ?thesis by blast
qed

text \<open>
  C10 (\<open>hasJoined\<close> is total). \<open>hasJoined\<close> returns a boolean for every identity and has
  no failing branch: it is \<open>False\<close> in the initial state, where \<open>getPlayerPosition\<close> fails
  on the same identity, and after any sequence of transactions it is \<open>True\<close> exactly when
  a \<open>joinGame\<close> of that identity succeeded in the sequence. Being a view function it
  returns no state.
\<close>

theorem hasJoined_total:
  "hasJoined caller init p = False \<and>
   getPlayerPosition caller init p = Inl PlayerNotRegistered \<and>
   (hasJoined caller (run this init txs) p \<longleftrightarrow> join_succeeded this init txs p) \<and>
   (hasJoined caller s p \<longleftrightarrow> getPlayerPosition caller s p \<noteq> Inl PlayerNotRegistered)"
proof -
  have step: "active (players (transact this s tx) p) \<longleftrightarrow>
      active (players s p) \<or> (fst tx = p \<and> join_succeeds this s tx)" for s tx
  proof -
    obtain a c where tx: "tx = (a, c)" by (cases tx)
    show ?thesis
    proof (cases "a = p")
      case False
      then show ?thesis using transact_other [of p a this s c] by (simp add: tx)
    next
      case True
      show ?thesis
      proof (cases c)
        case (JoinGame vx vy)
        show ?thesis
        proof (cases "active (players s p)")
          case True
          then show ?thesis
            by (simp add: tx \<open>a = p\<close> JoinGame transact_def joinGame_active)
        next
          case False
          from joinGame_fresh [OF False, of this vx vy] show ?thesis
            by (auto simp add: tx \<open>a = p\<close> JoinGame transact_def)
        qed
      next
        case (Move ex ey pr)
        show ?thesis
        proof (cases "active (players s p)")
          case False
          then show ?thesis
            by (simp add: tx \<open>a = p\<close> Move transact_def move_inactive)
        next
          case True
          show ?thesis
          proof (cases "proof_ok this p ex pr \<and> proof_ok this p ey pr")
            case True
            with move_ok [of s p this ex pr ey] \<open>active (players s p)\<close> show ?thesis
              by (auto simp add: tx \<open>a = p\<close> Move transact_def)
          next
            case False
            with move_bad_proof [of s p this ex pr ey] \<open>active (players s p)\<close> show ?thesis
              by (simp add: tx \<open>a = p\<close> Move transact_def)
          qed
        qed
      qed
    qed
  qed
  have runs: "active (players (run this s txs) p) \<longleftrightarrow>
      active (players s p) \<or> join_succeeded this s txs p" for s
  proof (induction txs arbitrary: s)
    case Nil
    show ?case by simp
  next
    case (Cons tx txs)
    show ?case using Cons.IH [of "transact this s tx"] step [of s tx] by auto
  qed
  have "hasJoined caller (run this init txs) p \<longleftrightarrow> join_succeeded this init txs p"
    using runs [of init] by (simp add: hasJoined_def inactive_init)
  then show ?thesis
    by (simp add: hasJoined_def getPlayerPosition_def Let_def inactive_init)
qed

theorem hasJoined_total_witness:
  "hasJoined bob (run ledger init two_steps) alice \<and>
   join_succeeded ledger init two_steps alice \<and>
   \<not> hasJoined alice (run ledger init two_steps) bob \<and>
   \<not> join_succeeded ledger init two_steps bob"
proof -
  have a: "join_succeeded ledger init two_steps alice"
    by (simp add: two_steps_def scenario_defs FHE_defs)
  have b: "\<not> join_succeeded ledger init two_steps bob"
    by (simp add: two_steps_def scenario_defs FHE_defs)
  from hasJoined_total [of bob alice ledger two_steps init]
    hasJoined_total [of alice bob ledger two_steps init] a b
  show ?thesis by simp
qed

section \<open>Properties of the decryption flow\<close>







end
